theory Spec2Isabelle
  imports Main "HOL-Library.Sublist"
begin

section \<open>Strings of the Go standard library used by the decoder\<close>

text \<open>
  A Go string is a sequence of bytes, here a \<^typ>\<open>string\<close>. The decode loop of
  package runs uses \<^verbatim>\<open>strings.TrimSpace\<close>, \<^verbatim>\<open>strings.HasPrefix\<close> and
  \<^verbatim>\<open>strings.TrimPrefix\<close>. White space is what \<^verbatim>\<open>unicode.IsSpace\<close> accepts,
  written as the UTF-8 encoding of each such rune: the six ASCII ones, U+0085, U+00A0,
  U+1680, U+2000 to U+200A, U+2028, U+2029, U+202F, U+205F and U+3000.
\<close>

definition whiteSpace :: "string list" where
  "whiteSpace =
     [[CHR 0x09], [CHR 0x0A], [CHR 0x0B], [CHR 0x0C], [CHR 0x0D], [CHR 0x20],
      [CHR 0xC2, CHR 0x85], [CHR 0xC2, CHR 0xA0],
      [CHR 0xE1, CHR 0x9A, CHR 0x80],
      [CHR 0xE2, CHR 0x80, CHR 0x80], [CHR 0xE2, CHR 0x80, CHR 0x81],
      [CHR 0xE2, CHR 0x80, CHR 0x82], [CHR 0xE2, CHR 0x80, CHR 0x83],
      [CHR 0xE2, CHR 0x80, CHR 0x84], [CHR 0xE2, CHR 0x80, CHR 0x85],
      [CHR 0xE2, CHR 0x80, CHR 0x86], [CHR 0xE2, CHR 0x80, CHR 0x87],
      [CHR 0xE2, CHR 0x80, CHR 0x88], [CHR 0xE2, CHR 0x80, CHR 0x89],
      [CHR 0xE2, CHR 0x80, CHR 0x8A],
      [CHR 0xE2, CHR 0x80, CHR 0xA8], [CHR 0xE2, CHR 0x80, CHR 0xA9],
      [CHR 0xE2, CHR 0x80, CHR 0xAF],
      [CHR 0xE2, CHR 0x81, CHR 0x9F],
      [CHR 0xE3, CHR 0x80, CHR 0x80]]"

text \<open>The number of bytes of the white-space rune a string starts with, 0 when it
  starts with none. The second argument lists the encodings to look for.\<close>

definition spaceWidth :: "string list \<Rightarrow> string \<Rightarrow> nat" where
  "spaceWidth ws s = (case find (\<lambda>w. prefix w s) ws of None \<Rightarrow> 0 | Some w \<Rightarrow> length w)"

lemma spaceWidth_le: "spaceWidth ws s \<le> length s"
  by (auto simp: spaceWidth_def find_Some_iff prefix_def split: option.splits)

function trimLeftWith :: "string list \<Rightarrow> string \<Rightarrow> string" where
  "trimLeftWith ws s =
     (if spaceWidth ws s = 0 then s else trimLeftWith ws (drop (spaceWidth ws s) s))"
  by pat_completeness auto
termination
proof (relation "measure (\<lambda>(ws, s). length s)")
  fix ws :: "string list" and s :: string
  assume "spaceWidth ws s \<noteq> 0"
  with spaceWidth_le [of ws s] have "0 < length s" "0 < spaceWidth ws s" by auto
  then show "((ws, drop (spaceWidth ws s) s), (ws, s)) \<in> measure (\<lambda>(ws, s). length s)"
    by simp
qed simp

text \<open>Leading white space is decoded forwards; trailing white space is decoded
  backwards from the end (\<^verbatim>\<open>utf8.DecodeLastRuneInString\<close>), which on these encodings
  is stripping the reversed encodings from the reversed string.\<close>

definition trimLeft :: "string \<Rightarrow> string" where
  "trimLeft s = trimLeftWith whiteSpace s"

definition trimRight :: "string \<Rightarrow> string" where
  "trimRight s = rev (trimLeftWith (map rev whiteSpace) (rev s))"

definition TrimSpace :: "string \<Rightarrow> string" where
  "TrimSpace s = trimRight (trimLeft s)"

definition HasPrefix :: "string \<Rightarrow> string \<Rightarrow> bool" where
  "HasPrefix s p = (length s \<ge> length p \<and> take (length p) s = p)"

definition TrimPrefix :: "string \<Rightarrow> string \<Rightarrow> string" where
  "TrimPrefix s p = (if HasPrefix s p then drop (length p) s else s)"

section \<open>The event stream decoder of package runs\<close>

record RunEvent =
  Event :: string
  Data :: string

text \<open>How the response body ends: \<^verbatim>\<open>io.EOF\<close>, or another read error with the text
  of \<^verbatim>\<open>err.Error()\<close>. The body holds the bytes received before that.\<close>

datatype read_end = EOF | ReadError string

text \<open>\<^verbatim>\<open>reader.ReadString('\n')\<close>: the bytes up to and including the first newline and
  the bytes left in the reader, or \<open>None\<close> when the body ends before a newline (the
  call then returns the partial data together with the error).\<close>

fun ReadString :: "string \<Rightarrow> (string \<times> string) option" where
  "ReadString [] = None"
| "ReadString (c # cs) =
     (if c = CHR 0x0A then Some ([c], cs)
      else (case ReadString cs of None \<Rightarrow> None | Some (l, r) \<Rightarrow> Some (c # l, r)))"

lemma ReadString_shorter: "ReadString s = Some (l, r) \<Longrightarrow> length r < length s"
  by (induction s arbitrary: l r) (auto split: if_splits option.splits)

definition errorEvent :: "string \<Rightarrow> RunEvent" where
  "errorEvent msg = \<lparr>Event = ''error'', Data = ''{\"error\":\"'' @ msg @ ''\"}''\<rparr>"

definition doneEvent :: RunEvent where
  "doneEvent = \<lparr>Event = ''done'', Data = []\<rparr>"

text \<open>The loop of the goroutine started by \<^verbatim>\<open>createRunStream\<close> and, line for line the
  same, by \<^verbatim>\<open>SubmitToolOutputsStream\<close>. The result is the sequence of events sent on
  the channel before it is closed.\<close>

function decodeLoop :: "string \<Rightarrow> string \<Rightarrow> read_end \<Rightarrow> RunEvent list" where
  "decodeLoop currentEvent body fin =
     (case ReadString body of
        None \<Rightarrow> (case fin of EOF \<Rightarrow> [] | ReadError msg \<Rightarrow> [errorEvent msg])
      | Some (raw, rest) \<Rightarrow>
          (let line = TrimSpace raw in
           if line = [] then decodeLoop currentEvent rest fin
           else if HasPrefix line ''event: ''
             then decodeLoop (TrimPrefix line ''event: '') rest fin
           else if HasPrefix line ''data: '' then
             (let data = TrimPrefix line ''data: '' in
              if data = ''[DONE]'' then [doneEvent]
              else \<lparr>Event = currentEvent, Data = data\<rparr> # decodeLoop currentEvent rest fin)
           else decodeLoop currentEvent rest fin))"
  by pat_completeness auto
termination
  by (relation "measure (\<lambda>(c, b, e). length b)") (auto dest: ReadString_shorter)

declare decodeLoop.simps [simp del] trimLeftWith.simps [simp del]

section \<open>Streams as lines\<close>

text \<open>A body is written as the complete lines it holds, each followed by a newline, and
  the bytes after the last newline. \<open>trimmed l\<close> is the value of the variable
  \<^verbatim>\<open>line\<close> of the loop after \<^verbatim>\<open>strings.TrimSpace\<close>, for the wire line \<open>l\<close>.\<close>

definition wire :: "string list \<Rightarrow> string" where
  "wire ls = concat (map (\<lambda>l. l @ [CHR 0x0A]) ls)"

definition trimmed :: "string \<Rightarrow> string" where
  "trimmed l = TrimSpace (l @ [CHR 0x0A])"




section \<open>The HTTP transport of package client\<close>

text \<open>
  The client (its \<^verbatim>\<open>HTTPClient\<close> is the function \<open>Do\<close> below), the error body of
  the API, and a request and a response of \<^verbatim>\<open>net/http\<close> as far as the client uses
  them. The response body is the bytes the server delivers and how the delivery ends.
  Header keys are kept as the source writes them.
\<close>

record Client =
  BaseURL :: string
  APIKey :: string

record APIError =
  Message :: string
  Type :: string
  Param :: string
  Code :: string

record Request =
  Method :: string
  URL :: string
  Header :: "string \<rightharpoonup> string"
  Body :: string

record Response =
  StatusCode :: int
  RespBody :: string
  BodyEnd :: read_end

text \<open>
  The errors the client returns, one constructor for each place that makes one:
  \<open>LibError\<close> is an error of the standard library (\<^verbatim>\<open>net/http\<close>,
  \<^verbatim>\<open>encoding/json\<close>, \<^verbatim>\<open>io\<close>) with its text; \<open>SendRequestFailed\<close>,
  \<open>ReadBodyFailed\<close> and \<open>DecodeFailed\<close> wrap the error of the failed step of
  \<^verbatim>\<open>SendRequest\<close>; \<open>APIRequestFailed\<close> is its error made of status code and body;
  \<open>APIErr\<close> is the \<^verbatim>\<open>*APIError\<close>; \<open>UnexpectedStatusCode\<close> is the error of the
  streaming calls; the last two wrap the errors of \<^verbatim>\<open>Cancel\<close>.
\<close>

datatype error =
    LibError string
  | SendRequestFailed error
  | ReadBodyFailed error
  | APIRequestFailed int string
  | APIErr APIError
  | DecodeFailed error
  | UnexpectedStatusCode int
  | CreateRequestFailed error
  | CancelSendFailed error

section \<open>The data of package runs\<close>

text \<open>
  The structs of package runs with the fields that the functions below and the
  properties proved about them read or write. A pointer that may be nil is an
  \<open>option\<close>. Where two structs have a field of the same name, the second and later
  ones carry a prefix. Of a \<^verbatim>\<open>Run\<close>, the time stamps, the echoed configuration and
  the usage are left out: the client only carries them from the decoder to the caller.
  Of the two requests that create a run, the fields besides the assistant id and
  \<^verbatim>\<open>Stream\<close> are left out: they only travel to \<^verbatim>\<open>json.Marshal\<close>. The struct
  \<^verbatim>\<open>SubmitToolOutputs\<close> is called \<open>SubmitToolOutputsAction\<close>, the name being that
  of a function of the service too.
\<close>

record FunctionCall =
  fn_Name :: string
  fn_Arguments :: string
  fn_Output :: string

record ToolCall =
  call_ID :: string
  call_Type :: string
  call_Function :: "FunctionCall option"

record SubmitToolOutputsAction =
  ToolCalls :: "ToolCall list"

record RequiredAction =
  action_Type :: string
  action_SubmitToolOutputs :: "SubmitToolOutputsAction option"

record ErrorObject =
  err_Code :: string
  err_Message :: string

record Run =
  ID :: string
  ThreadID :: string
  AssistantID :: string
  Status :: string
  RequiredAction :: "RequiredAction option"
  LastError :: "ErrorObject option"

record ToolOutput =
  ToolCallID :: string
  Output :: string

record SubmitToolOutputsRequest =
  ToolOutputs :: "ToolOutput list"
  Stream :: bool

record CreateRunRequest =
  run_AssistantID :: string
  run_Stream :: bool

record CreateThreadAndRunRequest =
  thread_AssistantID :: string
  embedded :: CreateRunRequest

text \<open>
  The surroundings of the client: the HTTP client's \<^verbatim>\<open>Do\<close> (the network and the
  server), the parsing of an address inside \<^verbatim>\<open>http.NewRequest\<close>, and
  \<^verbatim>\<open>json.Unmarshal\<close> and \<^verbatim>\<open>json.Marshal\<close> at the types they are used at. They
  are parameters: every property below holds for all of them. The type \<open>any\<close> stands
  for a value of \<^verbatim>\<open>interface{}\<close>.
\<close>

typedecl any

type_synonym Metadata = "string \<rightharpoonup> any"

record env =
  Do :: "Request \<Rightarrow> error + Response"
  ParseURL :: "string \<Rightarrow> error option"
  UnmarshalAPIError :: "string \<Rightarrow> error + APIError"
  UnmarshalRun :: "string \<Rightarrow> error + Run"
  MarshalCreateRun :: "CreateRunRequest \<Rightarrow> error + string"
  MarshalCreateThreadAndRun :: "CreateThreadAndRunRequest \<Rightarrow> error + string"
  MarshalSubmit :: "SubmitToolOutputsRequest \<Rightarrow> error + string"
  MarshalMetadata :: "Metadata \<Rightarrow> error + string"

definition defaultBaseURL :: string where
  "defaultBaseURL = ''https://api.openai.com/v1''"

definition NewClient :: "string \<Rightarrow> Client" where
  "NewClient apiKey = \<lparr>BaseURL = defaultBaseURL, APIKey = apiKey\<rparr>"

text \<open>\<^verbatim>\<open>http.NewRequest\<close> fails when the address does not parse (the methods used
  are valid); \<open>Set\<close> is \<^verbatim>\<open>req.Header.Set\<close>.\<close>

definition NewRequest :: "env \<Rightarrow> string \<Rightarrow> string \<Rightarrow> string \<Rightarrow> error + Request" where
  "NewRequest env method url body =
     (case ParseURL env url of
        Some err \<Rightarrow> Inl err
      | None \<Rightarrow> Inr \<lparr>Method = method, URL = url, Header = Map.empty, Body = body\<rparr>)"

definition Set :: "Request \<Rightarrow> string \<Rightarrow> string \<Rightarrow> Request" where
  "Set req key val = req\<lparr>Header := (Header req)(key \<mapsto> val)\<rparr>"

text \<open>
  \<^verbatim>\<open>SendRequest\<close>. The first component of the result lists the requests handed to
  \<^verbatim>\<open>HTTPClient.Do\<close>; the second is the error, or the value decoded into \<^verbatim>\<open>v\<close>
  (the argument \<open>unmarshal\<close> is \<^verbatim>\<open>json.Unmarshal\<close> at the type of \<^verbatim>\<open>v\<close>).
  \<^verbatim>\<open>io.ReadAll\<close> fails when the body ends with a read error.
\<close>

definition setCommonHeaders :: "Client \<Rightarrow> Request \<Rightarrow> Request" where
  "setCommonHeaders c req =
     Set (Set req ''Authorization'' (''Bearer '' @ APIKey c)) ''Content-Type'' ''application/json''"

definition SendRequest ::
  "env \<Rightarrow> Client \<Rightarrow> Request \<Rightarrow> (string \<Rightarrow> error + 'v) \<Rightarrow> Request list \<times> (error + 'v)" where
  "SendRequest env c req0 unmarshal =
     (let req = setCommonHeaders c req0
      in (case Do env req of
            Inl err \<Rightarrow> ([req], Inl (SendRequestFailed err))
          | Inr resp \<Rightarrow>
              (case BodyEnd resp of
                 ReadError msg \<Rightarrow> ([req], Inl (ReadBodyFailed (LibError msg)))
               | EOF \<Rightarrow>
                   if StatusCode resp \<noteq> 200 then
                     (case UnmarshalAPIError env (RespBody resp) of
                        Inl err \<Rightarrow>
                          ([req], Inl (APIRequestFailed (StatusCode resp) (RespBody resp)))
                      | Inr apiErr \<Rightarrow> ([req], Inl (APIErr apiErr)))
                   else
                     (case unmarshal (RespBody resp) of
                        Inl err \<Rightarrow> ([req], Inl (DecodeFailed err))
                      | Inr v \<Rightarrow> ([req], Inr v)))))"

section \<open>The service of package runs\<close>

text \<open>
  The functions that return a run give the requests handed to the HTTP client and the
  result. The streaming functions give first the caller's request struct as the call
  leaves it (the argument is a pointer and the function assigns to \<^verbatim>\<open>req.Stream\<close>),
  then the requests sent, then the error or the events delivered on the channel until
  it is closed. What \<^verbatim>\<open>Cancel\<close> prints is left out.
\<close>

definition prepareRequest :: "Client \<Rightarrow> Request \<Rightarrow> Request" where
  "prepareRequest c req =
     Set (Set (Set req ''Authorization'' (''Bearer '' @ APIKey c))
              ''OpenAI-Beta'' ''assistants=v2'')
         ''Content-Type'' ''application/json''"

text \<open>The addresses built with \<^verbatim>\<open>fmt.Sprintf\<close>.\<close>

definition runsURL :: "Client \<Rightarrow> string \<Rightarrow> string" where
  "runsURL c threadID = BaseURL c @ ''/threads/'' @ threadID @ ''/runs''"

definition threadRunsURL :: "Client \<Rightarrow> string" where
  "threadRunsURL c = BaseURL c @ ''/threads/runs''"


definition submitURL :: "Client \<Rightarrow> string \<Rightarrow> string \<Rightarrow> string" where
  "submitURL c threadID runID =
     BaseURL c @ ''/threads/'' @ threadID @ ''/runs/'' @ runID @ ''/submit_tool_outputs''"


definition createRun ::
  "env \<Rightarrow> Client \<Rightarrow> string \<Rightarrow> ('r \<Rightarrow> error + string) \<Rightarrow> 'r \<Rightarrow> Request list \<times> (error + Run)" where
  "createRun env c url marshal req =
     (case marshal req of
        Inl err \<Rightarrow> ([], Inl err)
      | Inr body \<Rightarrow>
          (case NewRequest env ''POST'' url body of
             Inl err \<Rightarrow> ([], Inl err)
           | Inr httpReq \<Rightarrow>
               SendRequest env c (Set httpReq ''OpenAI-Beta'' ''assistants=v2'') (UnmarshalRun env)))"

definition createRunStream ::
  "env \<Rightarrow> Client \<Rightarrow> string \<Rightarrow> ('r \<Rightarrow> error + string) \<Rightarrow> 'r
     \<Rightarrow> Request list \<times> (error + RunEvent list)" where
  "createRunStream env c url marshal req =
     (case marshal req of
        Inl err \<Rightarrow> ([], Inl err)
      | Inr body \<Rightarrow>
          (case NewRequest env ''POST'' url body of
             Inl err \<Rightarrow> ([], Inl err)
           | Inr httpReq0 \<Rightarrow>
               (let httpReq = prepareRequest c httpReq0 in
                case Do env httpReq of
                  Inl err \<Rightarrow> ([httpReq], Inl err)
                | Inr resp \<Rightarrow>
                    if StatusCode resp \<noteq> 200
                    then ([httpReq], Inl (UnexpectedStatusCode (StatusCode resp)))
                    else ([httpReq], Inr (decodeLoop [] (RespBody resp) (BodyEnd resp))))))"


definition CreateAndStream ::
  "env \<Rightarrow> Client \<Rightarrow> string \<Rightarrow> CreateRunRequest
     \<Rightarrow> CreateRunRequest \<times> Request list \<times> (error + RunEvent list)" where
  "CreateAndStream env c threadID req0 =
     (let req = req0\<lparr>run_Stream := True\<rparr> in
      (req, createRunStream env c (runsURL c threadID) (MarshalCreateRun env) req))"

definition CreateThreadAndRun ::
  "env \<Rightarrow> Client \<Rightarrow> CreateThreadAndRunRequest \<Rightarrow> Request list \<times> (error + Run)" where
  "CreateThreadAndRun env c req =
     createRun env c (threadRunsURL c) (MarshalCreateThreadAndRun env) req"

definition CreateThreadAndRunStream ::
  "env \<Rightarrow> Client \<Rightarrow> CreateThreadAndRunRequest
     \<Rightarrow> CreateThreadAndRunRequest \<times> Request list \<times> (error + RunEvent list)" where
  "CreateThreadAndRunStream env c req0 =
     (let req = req0\<lparr>embedded := (embedded req0)\<lparr>run_Stream := True\<rparr>\<rparr> in
      (req, createRunStream env c (threadRunsURL c) (MarshalCreateThreadAndRun env) req))"



definition SubmitToolOutputs ::
  "env \<Rightarrow> Client \<Rightarrow> string \<Rightarrow> string \<Rightarrow> SubmitToolOutputsRequest
     \<Rightarrow> Request list \<times> (error + Run)" where
  "SubmitToolOutputs env c threadID runID req =
     (case MarshalSubmit env req of
        Inl err \<Rightarrow> ([], Inl err)
      | Inr body \<Rightarrow>
          (case NewRequest env ''POST'' (submitURL c threadID runID) body of
             Inl err \<Rightarrow> ([], Inl err)
           | Inr httpReq \<Rightarrow>
               SendRequest env c (Set httpReq ''OpenAI-Beta'' ''assistants=v2'')
                 (UnmarshalRun env)))"

definition SubmitToolOutputsStream ::
  "env \<Rightarrow> Client \<Rightarrow> string \<Rightarrow> string \<Rightarrow> SubmitToolOutputsRequest
     \<Rightarrow> SubmitToolOutputsRequest \<times> Request list \<times> (error + RunEvent list)" where
  "SubmitToolOutputsStream env c threadID runID req0 =
     (let req = req0\<lparr>Stream := True\<rparr> in
      case MarshalSubmit env req of
        Inl err \<Rightarrow> (req, [], Inl err)
      | Inr body \<Rightarrow>
          (case NewRequest env ''POST'' (submitURL c threadID runID) body of
             Inl err \<Rightarrow> (req, [], Inl err)
           | Inr httpReq0 \<Rightarrow>
               (let httpReq = prepareRequest c httpReq0 in
                case Do env httpReq of
                  Inl err \<Rightarrow> (req, [httpReq], Inl err)
                | Inr resp \<Rightarrow>
                    if StatusCode resp \<noteq> 200
                    then (req, [httpReq], Inl (UnexpectedStatusCode (StatusCode resp)))
                    else (req, [httpReq],
                          Inr (decodeLoop [] (RespBody resp) (BodyEnd resp))))))"


section \<open>Waiting for a run to settle (the example programs)\<close>

text \<open>
  \<^verbatim>\<open>waitForRun\<close> and \<^verbatim>\<open>waitForRunCompletion\<close>. The argument \<open>get\<close> gives the
  result of the \<open>i\<close>-th call of \<^verbatim>\<open>service.Get(threadID, runID)\<close>, counted from 0;
  an error of that call is returned as it is, here under \<open>GetFailed\<close>. Sleeping is
  left out. In \<^verbatim>\<open>waitForRunCompletion\<close> the \<^verbatim>\<open>select\<close> statement takes either a
  tick or the timeout: \<open>ticks\<close> is the number of ticks it takes before it takes the
  timeout, which the duration, the ticker and the scheduler decide.
\<close>

datatype wait_error = GetFailed error | UnexpectedRunStatus string | WaitTimeout

definition maxAttempts :: nat where
  "maxAttempts = 60"

function waitForRunFrom :: "(nat \<Rightarrow> error + Run) \<Rightarrow> nat \<Rightarrow> wait_error + Run" where
  "waitForRunFrom get i =
     (if i < maxAttempts then
        (case get i of
           Inl err \<Rightarrow> Inl (GetFailed err)
         | Inr run \<Rightarrow>
             if Status run = ''completed'' \<or> Status run = ''failed'' \<or> Status run = ''cancelled''
               then Inr run
             else if Status run = ''requires_action'' then Inr run
             else if Status run = ''queued'' \<or> Status run = ''in_progress''
               then waitForRunFrom get (Suc i)
             else Inl (UnexpectedRunStatus (Status run)))
      else Inl WaitTimeout)"
  by pat_completeness auto

termination
  by (relation "measure (\<lambda>(get, i). maxAttempts - i)") auto

definition waitForRun :: "(nat \<Rightarrow> error + Run) \<Rightarrow> wait_error + Run" where
  "waitForRun get = waitForRunFrom get 0"

function waitForRunCompletionFrom ::
  "(nat \<Rightarrow> error + Run) \<Rightarrow> nat \<Rightarrow> nat \<Rightarrow> wait_error + Run" where
  "waitForRunCompletionFrom get ticks i =
     (if i < ticks then
        (case get i of
           Inl err \<Rightarrow> Inl (GetFailed err)
         | Inr run \<Rightarrow>
             if Status run = ''completed'' \<or> Status run = ''failed''
                \<or> Status run = ''cancelled'' \<or> Status run = ''requires_action''
               then Inr run
             else waitForRunCompletionFrom get ticks (Suc i))
      else Inl WaitTimeout)"
  by pat_completeness auto

termination
  by (relation "measure (\<lambda>(get, ticks, i). ticks - i)") auto

declare waitForRunFrom.simps [simp del] waitForRunCompletionFrom.simps [simp del]

definition waitForRunCompletion :: "(nat \<Rightarrow> error + Run) \<Rightarrow> nat \<Rightarrow> wait_error + Run" where
  "waitForRunCompletion get ticks = waitForRunCompletionFrom get ticks 0"

section \<open>A test server\<close>

text \<open>
  For the examples below: a server that, like the \<^verbatim>\<open>httptest\<close> servers of the
  package's tests, gives the same response to every request, with encoders and decoders
  that agree with \<^verbatim>\<open>encoding/json\<close> on the values used (strings without characters
  that need escaping, non-empty lists, the bodies listed).
\<close>

definition encodeToolOutput :: "ToolOutput \<Rightarrow> string" where
  "encodeToolOutput out =
     ''{\"tool_call_id\":\"'' @ ToolCallID out @ ''\",\"output\":\"'' @ Output out @ ''\"}''"

fun commaSeparated :: "string list \<Rightarrow> string" where
  "commaSeparated [] = []"
| "commaSeparated [x] = x"
| "commaSeparated (x # y # ys) = x @ '','' @ commaSeparated (y # ys)"

definition encodeSubmit :: "SubmitToolOutputsRequest \<Rightarrow> string" where
  "encodeSubmit req =
     ''{\"tool_outputs\":['' @ commaSeparated (map encodeToolOutput (ToolOutputs req)) @ '']''
       @ (if Stream req then '',\"stream\":true'' else []) @ ''}''"

definition encodeCreateRun :: "CreateRunRequest \<Rightarrow> string" where
  "encodeCreateRun req =
     ''{\"assistant_id\":\"'' @ run_AssistantID req @ ''\"''
       @ (if run_Stream req then '',\"stream\":true'' else []) @ ''}''"

definition encodeCreateThreadAndRun :: "CreateThreadAndRunRequest \<Rightarrow> string" where
  "encodeCreateThreadAndRun req =
     ''{\"assistant_id\":\"'' @ thread_AssistantID req @ ''\"''
       @ (if run_Stream (embedded req) then '',\"stream\":true'' else []) @ ''}''"

definition zeroRun :: Run where
  "zeroRun = \<lparr>ID = [], ThreadID = [], AssistantID = [], Status = [],
              RequiredAction = None, LastError = None\<rparr>"

definition runBodies :: "(string \<times> Run) list" where
  "runBodies =
     [(''{\"id\":\"run_123\",\"status\":\"completed\"}'',
         zeroRun\<lparr>ID := ''run_123'', Status := ''completed''\<rparr>),
      (''{\"id\":\"run_123\",\"status\":\"requires_action\"}'',
         zeroRun\<lparr>ID := ''run_123'', Status := ''requires_action''\<rparr>)]"

definition zeroAPIError :: APIError where
  "zeroAPIError = \<lparr>Message = [], Type = [], Param = [], Code = []\<rparr>"

definition apiErrorBodies :: "(string \<times> APIError) list" where
  "apiErrorBodies =
     [(''{\"error\":{\"message\":\"error message\",\"type\":\"invalid_request_error\",\"code\":\"invalid_api_key\"}}'',
         \<lparr>Message = ''error message'', Type = ''invalid_request_error'', Param = [],
          Code = ''invalid_api_key''\<rparr>),
      (''{\"id\":\"run_123\",\"status\":\"completed\"}'', zeroAPIError),
      (''{\"id\":\"run_123\",\"status\":\"requires_action\"}'', zeroAPIError)]"

definition testServer :: "Response \<Rightarrow> env" where
  "testServer resp =
     \<lparr>Do = (\<lambda>req. Inr resp),
      ParseURL = (\<lambda>url. None),
      UnmarshalAPIError =
        (\<lambda>body. case map_of apiErrorBodies body of
                  Some e \<Rightarrow> Inr e | None \<Rightarrow> Inl (LibError ''invalid character'')),
      UnmarshalRun =
        (\<lambda>body. case map_of runBodies body of
                  Some r \<Rightarrow> Inr r | None \<Rightarrow> Inl (LibError ''invalid character'')),
      MarshalCreateRun = (\<lambda>req. Inr (encodeCreateRun req)),
      MarshalCreateThreadAndRun = (\<lambda>req. Inr (encodeCreateThreadAndRun req)),
      MarshalSubmit = (\<lambda>req. Inr (encodeSubmit req)),
      MarshalMetadata = (\<lambda>m. Inr ''{\"metadata\":{}}'')\<rparr>"

definition respond :: "int \<Rightarrow> string \<Rightarrow> Response" where
  "respond code body = \<lparr>StatusCode = code, RespBody = body, BodyEnd = EOF\<rparr>"

section \<open>Notions used in the statements\<close>


text \<open>A POST request as \<^verbatim>\<open>http.NewRequest\<close> makes it.\<close>

definition post :: "string \<Rightarrow> string \<Rightarrow> Request" where
  "post url body = \<lparr>Method = ''POST'', URL = url, Header = Map.empty, Body = body\<rparr>"

text \<open>The ids of the tool calls a run waits for, and a run that waits for \<open>A\<close> and
  \<open>B\<close>.\<close>

definition outstandingToolCalls :: "Run \<Rightarrow> string list" where
  "outstandingToolCalls run =
     (case RequiredAction run of
        None \<Rightarrow> []
      | Some action \<Rightarrow>
          (case action_SubmitToolOutputs action of
             None \<Rightarrow> []
           | Some s \<Rightarrow> map call_ID (ToolCalls s)))"

definition runAwaitingAB :: Run where
  "runAwaitingAB =
     zeroRun\<lparr>ID := ''run_123'', Status := ''requires_action'',
       RequiredAction := Some
         \<lparr>action_Type = ''submit_tool_outputs'',
          action_SubmitToolOutputs = Some
            \<lparr>ToolCalls = [\<lparr>call_ID = ''A'', call_Type = ''function'', call_Function = None\<rparr>,
                          \<lparr>call_ID = ''B'', call_Type = ''function'', call_Function = None\<rparr>]\<rparr>\<rparr>\<rparr>"

text \<open>The statuses at which both loops return the run, and those at which
  \<^verbatim>\<open>waitForRun\<close> sleeps and polls again.\<close>

definition stopStatus :: "string \<Rightarrow> bool" where
  "stopStatus s = (s = ''completed'' \<or> s = ''failed'' \<or> s = ''cancelled'' \<or> s = ''requires_action'')"

definition pendingStatus :: "string \<Rightarrow> bool" where
  "pendingStatus s = (s = ''queued'' \<or> s = ''in_progress'')"

text \<open>The polls from \<open>i\<close> up to \<open>k\<close> all succeed with a status that makes the loop go on.\<close>

definition goesOn :: "(string \<Rightarrow> bool) \<Rightarrow> (nat \<Rightarrow> error + Run) \<Rightarrow> nat \<Rightarrow> nat \<Rightarrow> bool" where
  "goesOn continue get i k = (\<forall>j. i \<le> j \<and> j < k \<longrightarrow> (\<exists>r. get j = Inr r \<and> continue (Status r)))"

section \<open>Properties of the decoder\<close>

lemma wire_Nil [simp]: "wire [] = []" by (simp add: wire_def)
lemma wire_Cons [simp]: "wire (l # ls) = l @ CHR 0x0A # wire ls" by (simp add: wire_def)
lemma wire_append [simp]: "wire (xs @ ys) = wire xs @ wire ys" by (simp add: wire_def)

lemma ReadString_line:
  "CHR 0x0A \<notin> set l \<Longrightarrow> ReadString (l @ CHR 0x0A # rest) = Some (l @ [CHR 0x0A], rest)"
  by (induction l) auto

lemma ReadString_partial: "CHR 0x0A \<notin> set s \<Longrightarrow> ReadString s = None"
  by (induction s) auto

lemma decodeLoop_partial:
  "CHR 0x0A \<notin> set s \<Longrightarrow>
   decodeLoop cur s fin = (case fin of EOF \<Rightarrow> [] | ReadError msg \<Rightarrow> [errorEvent msg])"
  by (subst decodeLoop.simps) (simp add: ReadString_partial)

lemma decodeLoop_line:
  "CHR 0x0A \<notin> set l \<Longrightarrow>
   decodeLoop cur (l @ CHR 0x0A # rest) fin =
     (if trimmed l = [] then decodeLoop cur rest fin
      else if HasPrefix (trimmed l) ''event: ''
        then decodeLoop (TrimPrefix (trimmed l) ''event: '') rest fin
      else if HasPrefix (trimmed l) ''data: '' then
        (if TrimPrefix (trimmed l) ''data: '' = ''[DONE]'' then [doneEvent]
         else \<lparr>Event = cur, Data = TrimPrefix (trimmed l) ''data: ''\<rparr> # decodeLoop cur rest fin)
      else decodeLoop cur rest fin)"
  by (subst decodeLoop.simps) (simp add: ReadString_line trimmed_def Let_def)

lemma spaceWidth_fix: "spaceWidth ws (trimLeftWith ws s) = 0"
proof (induction ws s rule: trimLeftWith.induct)
  case (1 ws s)
  show ?case
  proof (cases "spaceWidth ws s = 0")
    case True
    then have "trimLeftWith ws s = s" by (subst trimLeftWith.simps) simp
    with True show ?thesis by simp
  next
    case False
    then have "trimLeftWith ws s = trimLeftWith ws (drop (spaceWidth ws s) s)"
      by (subst trimLeftWith.simps) simp
    with 1 False show ?thesis by simp
  qed
qed

lemma blank_width: "spaceWidth (map rev whiteSpace) (CHR 0x20 # r) \<noteq> 0"
  by (simp add: spaceWidth_def whiteSpace_def)

lemma TrimSpace_no_trailing_blank: "TrimSpace s \<noteq> xs @ [CHR 0x20]"
proof
  assume a: "TrimSpace s = xs @ [CHR 0x20]"
  define r where "r = trimLeftWith (map rev whiteSpace) (rev (trimLeft s))"
  have "rev r = xs @ [CHR 0x20]" using a by (simp add: TrimSpace_def trimRight_def r_def)
  then have "rev (rev r) = rev (xs @ [CHR 0x20])" by (rule arg_cong)
  then have r: "r = CHR 0x20 # rev xs" by simp
  have "spaceWidth (map rev whiteSpace) r = 0" unfolding r_def by (rule spaceWidth_fix)
  then show False unfolding r using blank_width by blast
qed

lemma HasPrefix_split: "HasPrefix s p \<longleftrightarrow> (\<exists>d. s = p @ d)"
proof
  assume "HasPrefix s p"
  then have "s = p @ drop (length p) s"
    by (metis HasPrefix_def append_take_drop_id)
  then show "\<exists>d. s = p @ d" ..
next
  assume "\<exists>d. s = p @ d"
  then show "HasPrefix s p" by (auto simp: HasPrefix_def)
qed

lemma TrimPrefix_append: "TrimPrefix (p @ d) p = d"
  by (simp add: TrimPrefix_def HasPrefix_def)

lemma data_payload_nonempty:
  assumes "HasPrefix (TrimSpace s) ''data: ''"
  shows "TrimPrefix (TrimSpace s) ''data: '' \<noteq> []"
proof
  assume e: "TrimPrefix (TrimSpace s) ''data: '' = []"
  from assms obtain d where d: "TrimSpace s = ''data: '' @ d"
    unfolding HasPrefix_split by blast
  with e have "d = []" by (simp only: TrimPrefix_append)
  with d have "TrimSpace s = ''data:'' @ [CHR 0x20]" by simp
  then show False using TrimSpace_no_trailing_blank by blast
qed

lemma HasPrefix_TrimPrefix: "HasPrefix t p \<Longrightarrow> t = p @ TrimPrefix t p"
  by (simp add: TrimPrefix_def HasPrefix_def) (metis append_take_drop_id)

lemma not_done_payload:
  "trimmed l \<noteq> ''data: [DONE]'' \<Longrightarrow> HasPrefix (trimmed l) ''data: '' \<Longrightarrow>
   TrimPrefix (trimmed l) ''data: '' \<noteq> ''[DONE]''"
  using HasPrefix_TrimPrefix [of "trimmed l" "''data: ''"] by auto

lemma HasPrefix_Nil [simp]: "HasPrefix [] (c # p) = False"
  by (simp add: HasPrefix_def)

lemma decodeLoop_Nil: "decodeLoop cur [] EOF = []"
  by (simp add: decodeLoop_partial)


lemma clean_events_from_data_lines:
  "\<forall>l\<in>set ls. CHR 0x0A \<notin> set l \<and> trimmed l \<noteq> ''data: [DONE]'' \<Longrightarrow>
   ev \<in> set (decodeLoop cur (wire ls) EOF) \<Longrightarrow>
   \<exists>l\<in>set ls. trimmed l = ''data: '' @ Data ev"
proof (induction ls arbitrary: cur)
  case Nil
  then show ?case by (simp add: decodeLoop_Nil)
next
  case (Cons l ls)
  then have nl: "CHR 0x0A \<notin> set l" and nd: "trimmed l \<noteq> ''data: [DONE]''"
    and rest: "\<forall>l\<in>set ls. CHR 0x0A \<notin> set l \<and> trimmed l \<noteq> ''data: [DONE]''"
    by simp_all
  note IH = Cons.IH [OF rest]
  from Cons.prems(2)
  have "(HasPrefix (trimmed l) ''data: '' \<and> Data ev = TrimPrefix (trimmed l) ''data: '')
        \<or> (\<exists>c. ev \<in> set (decodeLoop c (wire ls) EOF))"
    unfolding wire_Cons
    by (auto simp: decodeLoop_line [OF nl] not_done_payload [OF nd] split: if_splits)
  then show ?case
  proof
    assume "HasPrefix (trimmed l) ''data: '' \<and> Data ev = TrimPrefix (trimmed l) ''data: ''"
    then have "trimmed l = ''data: '' @ Data ev"
      using HasPrefix_TrimPrefix [of "trimmed l" "''data: ''"] by simp
    then show ?thesis by simp
  next
    assume "\<exists>c. ev \<in> set (decodeLoop c (wire ls) EOF)"
    then obtain c where "ev \<in> set (decodeLoop c (wire ls) EOF)" ..
    from IH [OF this] show ?thesis by auto
  qed
qed

lemma clean_no_done:
  assumes "\<forall>l\<in>set ls. CHR 0x0A \<notin> set l \<and> trimmed l \<noteq> ''data: [DONE]''"
  shows "doneEvent \<notin> set (decodeLoop cur (wire ls) EOF)"
proof
  assume "doneEvent \<in> set (decodeLoop cur (wire ls) EOF)"
  from clean_events_from_data_lines [OF assms this]
  obtain l where "trimmed l = ''data: '' @ Data doneEvent" by blast
  then have "TrimSpace (l @ [CHR 0x0A]) = ''data:'' @ [CHR 0x20]"
    by (simp add: doneEvent_def trimmed_def)
  then show False using TrimSpace_no_trailing_blank by blast
qed

lemma partial_line_dropped:
  "\<forall>l\<in>set ls. CHR 0x0A \<notin> set l \<Longrightarrow> CHR 0x0A \<notin> set tail \<Longrightarrow>
   decodeLoop cur (wire ls @ tail) EOF = decodeLoop cur (wire ls) EOF"
proof (induction ls arbitrary: cur)
  case Nil
  then show ?case by (simp add: decodeLoop_partial)
next
  case (Cons l ls)
  then have nl: "CHR 0x0A \<notin> set l" by simp
  have w: "wire (l # ls) @ tail = l @ CHR 0x0A # (wire ls @ tail)" by simp
  from Cons show ?case
    unfolding w wire_Cons by (simp add: decodeLoop_line [OF nl])
qed




section \<open>The claims about the decoder\<close>








text \<open>
  Claim C10. When the body ends at end-of-stream after bytes with no newline, these bytes
  are dropped: the events are those of the complete lines alone, whatever the partial
  line holds, and when no complete line is the sentinel there is no \<open>doneEvent\<close> and
  every event comes from a complete data line: none is made for the partial line, and
  none by the error branch.
\<close>

theorem unterminated_final_line_dropped:
  assumes "\<forall>l\<in>set ls. CHR 0x0A \<notin> set l" and "CHR 0x0A \<notin> set tail"
  shows "decodeLoop cur (wire ls @ tail) EOF = decodeLoop cur (wire ls) EOF
         \<and> ((\<forall>l\<in>set ls. trimmed l \<noteq> ''data: [DONE]'') \<longrightarrow>
               doneEvent \<notin> set (decodeLoop cur (wire ls @ tail) EOF)
             \<and> (\<forall>ev\<in>set (decodeLoop cur (wire ls @ tail) EOF).
                   \<exists>l\<in>set ls. trimmed l = ''data: '' @ Data ev))"
proof -
  have a: "decodeLoop cur (wire ls @ tail) EOF = decodeLoop cur (wire ls) EOF"
    by (rule partial_line_dropped [OF assms])
  have b: "doneEvent \<notin> set (decodeLoop cur (wire ls) EOF)
           \<and> (\<forall>ev\<in>set (decodeLoop cur (wire ls) EOF).
                 \<exists>l\<in>set ls. trimmed l = ''data: '' @ Data ev)"
    if "\<forall>l\<in>set ls. trimmed l \<noteq> ''data: [DONE]''"
  proof -
    from assms(1) that
    have h: "\<forall>l\<in>set ls. CHR 0x0A \<notin> set l \<and> trimmed l \<noteq> ''data: [DONE]''"
      by blast
    show ?thesis
      using clean_no_done [OF h, of cur] clean_events_from_data_lines [OF h, of _ cur]
      by blast
  qed
  from a b show ?thesis by simp
qed

text \<open>The theorem at a body whose unterminated last line is the sentinel.\<close>

theorem unterminated_final_line_dropped_witness:
  "decodeLoop [] ''event: a\<newline>data: 1\<newline>data: [DONE]'' EOF = [\<lparr>Event = ''a'', Data = ''1''\<rparr>]
   \<and> doneEvent \<notin> set (decodeLoop [] ''event: a\<newline>data: 1\<newline>data: [DONE]'' EOF)"
proof -
  have h1: "\<forall>l\<in>set [''event: a'', ''data: 1'']. CHR 0x0A \<notin> set l" by simp
  have h2: "CHR 0x0A \<notin> set ''data: [DONE]''" by simp
  have h3: "\<forall>l\<in>set [''event: a'', ''data: 1'']. trimmed l \<noteq> ''data: [DONE]''" by code_simp
  have e: "decodeLoop [] ''event: a\<newline>data: 1\<newline>'' EOF = [\<lparr>Event = ''a'', Data = ''1''\<rparr>]"
    by code_simp
  from unterminated_final_line_dropped [OF h1 h2, of "[]"] h3
  have "decodeLoop [] (wire [''event: a'', ''data: 1''] @ ''data: [DONE]'') EOF
          = decodeLoop [] (wire [''event: a'', ''data: 1'']) EOF
        \<and> doneEvent \<notin> set (decodeLoop [] (wire [''event: a'', ''data: 1''] @ ''data: [DONE]'') EOF)"
    by blast
  then show ?thesis by (simp add: e doneEvent_def)
qed

section \<open>Properties of the transport\<close>

lemma SendRequest_sent: "fst (SendRequest env c req um) = [setCommonHeaders c req]"
  by (simp add: SendRequest_def Let_def split: sum.splits read_end.splits)

lemma SendRequest_ok_iff:
  "snd (SendRequest env c req um) = Inr v \<longleftrightarrow>
     (\<exists>resp. Do env (setCommonHeaders c req) = Inr resp \<and> BodyEnd resp = EOF
            \<and> StatusCode resp = 200 \<and> um (RespBody resp) = Inr v)"
  by (auto simp: SendRequest_def Let_def split: sum.splits read_end.splits)

lemma SendRequest_not_ok:
  "Do env (setCommonHeaders c req) = Inr resp \<Longrightarrow> BodyEnd resp = EOF \<Longrightarrow>
   StatusCode resp \<noteq> 200 \<Longrightarrow>
   snd (SendRequest env c req um) =
     (case UnmarshalAPIError env (RespBody resp) of
        Inl err \<Rightarrow> Inl (APIRequestFailed (StatusCode resp) (RespBody resp))
      | Inr apiErr \<Rightarrow> Inl (APIErr apiErr))"
  by (simp add: SendRequest_def Let_def split: sum.splits)

text \<open>
  Claim C5, as amended. \<^verbatim>\<open>SendRequest\<close> returns the decoded body and no error exactly
  when the response arrives, its body is read to the end, its status code is 200 and
  the body decodes; for a response with any other status code it returns the
  \<^verbatim>\<open>APIError\<close> parsed from the body when the body parses, and otherwise an error made of
  the status code and the body.
\<close>

theorem SendRequest_success_is_status_200:
  "(snd (SendRequest env c req um) = Inr v \<longleftrightarrow>
      (\<exists>resp. Do env (setCommonHeaders c req) = Inr resp \<and> BodyEnd resp = EOF
             \<and> StatusCode resp = 200 \<and> um (RespBody resp) = Inr v))
   \<and> (\<forall>resp. Do env (setCommonHeaders c req) = Inr resp \<and> BodyEnd resp = EOF
             \<and> StatusCode resp \<noteq> 200 \<longrightarrow>
         snd (SendRequest env c req um) =
           (case UnmarshalAPIError env (RespBody resp) of
              Inl err \<Rightarrow> Inl (APIRequestFailed (StatusCode resp) (RespBody resp))
            | Inr apiErr \<Rightarrow> Inl (APIErr apiErr)))"
  using SendRequest_ok_iff [of env c req um v] SendRequest_not_ok [of env c req _ um]
  by blast

lemma testServer_simps:
  "Do (testServer resp) = (\<lambda>req. Inr resp)"
  "ParseURL (testServer resp) = (\<lambda>url. None)"
  "MarshalSubmit (testServer resp) = (\<lambda>req. Inr (encodeSubmit req))"
  "MarshalCreateRun (testServer resp) = (\<lambda>req. Inr (encodeCreateRun req))"
  "MarshalCreateThreadAndRun (testServer resp) = (\<lambda>req. Inr (encodeCreateThreadAndRun req))"
  by (simp_all add: testServer_def)

lemma testServer_decode_error:
  "UnmarshalAPIError (testServer resp)
     ''{\"error\":{\"message\":\"error message\",\"type\":\"invalid_request_error\",\"code\":\"invalid_api_key\"}}''
   = Inr \<lparr>Message = ''error message'', Type = ''invalid_request_error'', Param = [],
          Code = ''invalid_api_key''\<rparr>"
  "UnmarshalAPIError (testServer resp) ''{\"id\":\"run_123\",\"status\":\"completed\"}''
   = Inr zeroAPIError"
  by (simp_all add: testServer_def apiErrorBodies_def)

lemma testServer_decode_run:
  "UnmarshalRun (testServer resp) ''{\"id\":\"run_123\",\"status\":\"completed\"}''
   = Inr (zeroRun\<lparr>ID := ''run_123'', Status := ''completed''\<rparr>)"
  "UnmarshalRun (testServer resp) ''{\"id\":\"run_123\",\"status\":\"requires_action\"}''
   = Inr (zeroRun\<lparr>ID := ''run_123'', Status := ''requires_action''\<rparr>)"
  by (simp_all add: testServer_def runBodies_def)

text \<open>
  The theorem at the second case of \<^verbatim>\<open>TestSendRequest\<close>: status 400 with an error body.
\<close>

theorem SendRequest_success_is_status_200_witness:
  "snd (SendRequest
          (testServer (respond 400
             ''{\"error\":{\"message\":\"error message\",\"type\":\"invalid_request_error\",\"code\":\"invalid_api_key\"}}''))
          (NewClient ''test-key'')
          \<lparr>Method = ''GET'', URL = ''/test'', Header = Map.empty, Body = []\<rparr>
          (\<lambda>body. Inl (LibError ''not reached'') :: error + unit))
   = Inl (APIErr \<lparr>Message = ''error message'', Type = ''invalid_request_error'', Param = [],
                  Code = ''invalid_api_key''\<rparr>)"
proof -
  let ?resp = "respond 400
     ''{\"error\":{\"message\":\"error message\",\"type\":\"invalid_request_error\",\"code\":\"invalid_api_key\"}}''"
  let ?req = "\<lparr>Method = ''GET'', URL = ''/test'', Header = Map.empty, Body = []\<rparr>"
  have h: "Do (testServer ?resp) (setCommonHeaders (NewClient ''test-key'') ?req) = Inr ?resp
           \<and> BodyEnd ?resp = EOF \<and> StatusCode ?resp \<noteq> 200"
    by (simp add: testServer_simps respond_def)
  from SendRequest_success_is_status_200
         [of "testServer ?resp" "NewClient ''test-key''" ?req
             "\<lambda>body. Inl (LibError ''not reached'') :: error + unit"] h
  have "snd (SendRequest (testServer ?resp) (NewClient ''test-key'') ?req
               (\<lambda>body. Inl (LibError ''not reached'') :: error + unit))
        = (case UnmarshalAPIError (testServer ?resp) (RespBody ?resp) of
             Inl err \<Rightarrow> Inl (APIRequestFailed (StatusCode ?resp) (RespBody ?resp))
           | Inr apiErr \<Rightarrow> Inl (APIErr apiErr))"
    by blast
  then show ?thesis
    by (simp add: respond_def testServer_decode_error)
qed

text \<open>
  Claim C5 as stated takes every 2xx status for a success. A response with status 201
  and a well-formed body gives an error, the \<^verbatim>\<open>APIError\<close> decoded from a body with
  no \<^verbatim>\<open>error\<close> member, and nothing is decoded into the result.
\<close>

theorem status_201_is_an_error_counterexample:
  "snd (SendRequest
          (testServer (respond 201 ''{\"id\":\"run_123\",\"status\":\"completed\"}''))
          (NewClient ''test-key'')
          \<lparr>Method = ''GET'', URL = ''/test'', Header = Map.empty, Body = []\<rparr>
          (UnmarshalRun (testServer (respond 201 ''{\"id\":\"run_123\",\"status\":\"completed\"}''))))
   = Inl (APIErr zeroAPIError)"
  by (simp add: SendRequest_def Let_def testServer_simps respond_def testServer_decode_error)












lemma SubmitToolOutputs_sent:
  "fst (SubmitToolOutputs env c threadID runID req) =
     (case MarshalSubmit env req of
        Inl err \<Rightarrow> []
      | Inr body \<Rightarrow>
          (case ParseURL env (submitURL c threadID runID) of
             Some err \<Rightarrow> []
           | None \<Rightarrow>
               [setCommonHeaders c
                  (Set (post (submitURL c threadID runID) body) ''OpenAI-Beta'' ''assistants=v2'')]))"
  by (simp add: SubmitToolOutputs_def NewRequest_def post_def SendRequest_sent
           split: sum.splits option.splits)

lemma SubmitToolOutputs_ok_iff:
  "snd (SubmitToolOutputs env c threadID runID req) = Inr run \<longleftrightarrow>
     (\<exists>body resp.
         MarshalSubmit env req = Inr body \<and> ParseURL env (submitURL c threadID runID) = None
       \<and> Do env (setCommonHeaders c
                   (Set (post (submitURL c threadID runID) body) ''OpenAI-Beta'' ''assistants=v2''))
           = Inr resp
       \<and> BodyEnd resp = EOF \<and> StatusCode resp = 200
       \<and> UnmarshalRun env (RespBody resp) = Inr run)"
  by (auto simp: SubmitToolOutputs_def NewRequest_def post_def SendRequest_ok_iff
           split: sum.splits option.splits)

lemma SubmitToolOutputsStream_sent:
  "fst (snd (SubmitToolOutputsStream env c threadID runID req)) =
     (case MarshalSubmit env (req\<lparr>Stream := True\<rparr>) of
        Inl err \<Rightarrow> []
      | Inr body \<Rightarrow>
          (case ParseURL env (submitURL c threadID runID) of
             Some err \<Rightarrow> []
           | None \<Rightarrow> [prepareRequest c (post (submitURL c threadID runID) body)]))"
  by (simp add: SubmitToolOutputsStream_def NewRequest_def post_def Let_def
           split: sum.splits option.splits)

lemma SubmitToolOutputsStream_ok_iff:
  "snd (snd (SubmitToolOutputsStream env c threadID runID req)) = Inr evs \<longleftrightarrow>
     (\<exists>body resp.
         MarshalSubmit env (req\<lparr>Stream := True\<rparr>) = Inr body
       \<and> ParseURL env (submitURL c threadID runID) = None
       \<and> Do env (prepareRequest c (post (submitURL c threadID runID) body)) = Inr resp
       \<and> StatusCode resp = 200
       \<and> evs = decodeLoop [] (RespBody resp) (BodyEnd resp))"
  by (auto simp: SubmitToolOutputsStream_def NewRequest_def post_def Let_def
           split: sum.splits option.splits)

text \<open>
  Claim C3, as amended. Both submission functions take the caller's outputs and never
  the run's outstanding tool calls. Each sends one request whose body is the marshalled
  request as given (with \<^verbatim>\<open>Stream\<close> set, in the streaming one), and each succeeds
  exactly when marshalling and the address are fine and the server answers with status
  200 (and, for the synchronous one, a body that is read and decodes). No error of
  theirs is about mismatched tool calls.
\<close>

theorem submission_forwards_the_given_outputs:
  "fst (SubmitToolOutputs env c threadID runID req) =
     (case MarshalSubmit env req of
        Inl err \<Rightarrow> []
      | Inr body \<Rightarrow>
          (case ParseURL env (submitURL c threadID runID) of
             Some err \<Rightarrow> []
           | None \<Rightarrow>
               [setCommonHeaders c
                  (Set (post (submitURL c threadID runID) body) ''OpenAI-Beta'' ''assistants=v2'')]))
   \<and> (snd (SubmitToolOutputs env c threadID runID req) = Inr run \<longleftrightarrow>
        (\<exists>body resp.
            MarshalSubmit env req = Inr body \<and> ParseURL env (submitURL c threadID runID) = None
          \<and> Do env (setCommonHeaders c
                      (Set (post (submitURL c threadID runID) body) ''OpenAI-Beta'' ''assistants=v2''))
              = Inr resp
          \<and> BodyEnd resp = EOF \<and> StatusCode resp = 200
          \<and> UnmarshalRun env (RespBody resp) = Inr run))
   \<and> fst (snd (SubmitToolOutputsStream env c threadID runID req)) =
       (case MarshalSubmit env (req\<lparr>Stream := True\<rparr>) of
          Inl err \<Rightarrow> []
        | Inr body \<Rightarrow>
            (case ParseURL env (submitURL c threadID runID) of
               Some err \<Rightarrow> []
             | None \<Rightarrow> [prepareRequest c (post (submitURL c threadID runID) body)]))
   \<and> (snd (snd (SubmitToolOutputsStream env c threadID runID req)) = Inr evs \<longleftrightarrow>
        (\<exists>body resp.
            MarshalSubmit env (req\<lparr>Stream := True\<rparr>) = Inr body
          \<and> ParseURL env (submitURL c threadID runID) = None
          \<and> Do env (prepareRequest c (post (submitURL c threadID runID) body)) = Inr resp
          \<and> StatusCode resp = 200
          \<and> evs = decodeLoop [] (RespBody resp) (BodyEnd resp)))"
  by (simp only: SubmitToolOutputs_sent SubmitToolOutputs_ok_iff SubmitToolOutputsStream_sent
        SubmitToolOutputsStream_ok_iff simp_thms)

text \<open>
  Claim C3 as stated fails: for a run waiting for the tool calls \<open>A\<close> and \<open>B\<close>, a
  submission with an output for \<open>A\<close> alone is sent as it is, and with a server that
  answers 200 the call returns the run and no error.
\<close>

theorem partial_submission_is_sent_counterexample:
  "outstandingToolCalls runAwaitingAB = [''A'', ''B'']
   \<and> map Body (fst (SubmitToolOutputs
         (testServer (respond 200 ''{\"id\":\"run_123\",\"status\":\"completed\"}''))
         (NewClient ''test-key'') ''thread_123'' (ID runAwaitingAB)
         \<lparr>ToolOutputs = [\<lparr>ToolCallID = ''A'', Output = ''sunny''\<rparr>], Stream = False\<rparr>))
       = [''{\"tool_outputs\":[{\"tool_call_id\":\"A\",\"output\":\"sunny\"}]}'']
   \<and> snd (SubmitToolOutputs
         (testServer (respond 200 ''{\"id\":\"run_123\",\"status\":\"completed\"}''))
         (NewClient ''test-key'') ''thread_123'' (ID runAwaitingAB)
         \<lparr>ToolOutputs = [\<lparr>ToolCallID = ''A'', Output = ''sunny''\<rparr>], Stream = False\<rparr>)
       = Inr (zeroRun\<lparr>ID := ''run_123'', Status := ''completed''\<rparr>)"
  by (simp add: outstandingToolCalls_def runAwaitingAB_def zeroRun_def SubmitToolOutputs_def
        NewRequest_def SendRequest_def Let_def testServer_simps respond_def
        testServer_decode_run [unfolded zeroRun_def, simplified]
        encodeSubmit_def encodeToolOutput_def setCommonHeaders_def Set_def)

text \<open>
  The theorem at a submission answered with a completed run.
\<close>

theorem submission_forwards_the_given_outputs_witness:
  "snd (SubmitToolOutputs
         (testServer (respond 200 ''{\"id\":\"run_123\",\"status\":\"completed\"}''))
         (NewClient ''test-key'') ''thread_123'' ''run_123''
         \<lparr>ToolOutputs = [\<lparr>ToolCallID = ''A'', Output = ''sunny''\<rparr>,
                         \<lparr>ToolCallID = ''B'', Output = ''72F''\<rparr>], Stream = False\<rparr>)
     = Inr (zeroRun\<lparr>ID := ''run_123'', Status := ''completed''\<rparr>)"
  using submission_forwards_the_given_outputs
    [of "testServer (respond 200 ''{\"id\":\"run_123\",\"status\":\"completed\"}'')"
        "NewClient ''test-key''" "''thread_123''" "''run_123''"
        "\<lparr>ToolOutputs = [\<lparr>ToolCallID = ''A'', Output = ''sunny''\<rparr>,
                         \<lparr>ToolCallID = ''B'', Output = ''72F''\<rparr>], Stream = False\<rparr>"
        "zeroRun\<lparr>ID := ''run_123'', Status := ''completed''\<rparr>"]
  by (simp add: testServer_simps respond_def testServer_decode_run)

lemma Body_headers [simp]:
  "Body (Set req k v) = Body req"
  "Body (setCommonHeaders c req) = Body req"
  "Body (prepareRequest c req) = Body req"
  by (simp_all add: Set_def setCommonHeaders_def prepareRequest_def)

lemma createRunStream_ok_iff:
  "snd (createRunStream env c url marshal req) = Inr evs \<longleftrightarrow>
     (\<exists>body resp.
         marshal req = Inr body \<and> ParseURL env url = None
       \<and> Do env (prepareRequest c (post url body)) = Inr resp
       \<and> StatusCode resp = 200
       \<and> evs = decodeLoop [] (RespBody resp) (BodyEnd resp))"
  by (auto simp: createRunStream_def NewRequest_def post_def Let_def
           split: sum.splits option.splits)

lemma createRunStream_bodies:
  "map Body (fst (createRunStream env c url marshal req)) =
     (case marshal req of
        Inl err \<Rightarrow> []
      | Inr body \<Rightarrow> (case ParseURL env url of Some err \<Rightarrow> [] | None \<Rightarrow> [body]))"
  by (auto simp: createRunStream_def NewRequest_def Let_def split: sum.splits option.splits)

text \<open>
  Claim C9. Each streaming function leaves the caller's request with \<^verbatim>\<open>Stream\<close> set,
  whatever it was, and what it sends is the marshalling of the request with
  \<^verbatim>\<open>Stream\<close> set; \<^verbatim>\<open>SubmitToolOutputs\<close> sends the marshalling of the request as the
  caller gave it. Nothing is sent when marshalling or the address fails.
\<close>

theorem streaming_calls_set_Stream:
  "fst (CreateAndStream env c threadID creq) = creq\<lparr>run_Stream := True\<rparr>
   \<and> map Body (fst (snd (CreateAndStream env c threadID creq))) =
       (case MarshalCreateRun env (creq\<lparr>run_Stream := True\<rparr>) of
          Inl err \<Rightarrow> []
        | Inr body \<Rightarrow>
            (case ParseURL env (runsURL c threadID) of Some err \<Rightarrow> [] | None \<Rightarrow> [body]))
   \<and> fst (CreateThreadAndRunStream env c treq)
       = treq\<lparr>embedded := (embedded treq)\<lparr>run_Stream := True\<rparr>\<rparr>
   \<and> map Body (fst (snd (CreateThreadAndRunStream env c treq))) =
       (case MarshalCreateThreadAndRun env
               (treq\<lparr>embedded := (embedded treq)\<lparr>run_Stream := True\<rparr>\<rparr>) of
          Inl err \<Rightarrow> []
        | Inr body \<Rightarrow>
            (case ParseURL env (threadRunsURL c) of
               Some err \<Rightarrow> [] | None \<Rightarrow> [body]))
   \<and> fst (SubmitToolOutputsStream env c threadID runID sreq) = sreq\<lparr>Stream := True\<rparr>
   \<and> map Body (fst (snd (SubmitToolOutputsStream env c threadID runID sreq))) =
       (case MarshalSubmit env (sreq\<lparr>Stream := True\<rparr>) of
          Inl err \<Rightarrow> []
        | Inr body \<Rightarrow>
            (case ParseURL env (submitURL c threadID runID) of
               Some err \<Rightarrow> [] | None \<Rightarrow> [body]))
   \<and> map Body (fst (SubmitToolOutputs env c threadID runID sreq)) =
       (case MarshalSubmit env sreq of
          Inl err \<Rightarrow> []
        | Inr body \<Rightarrow>
            (case ParseURL env (submitURL c threadID runID) of
               Some err \<Rightarrow> [] | None \<Rightarrow> [body]))"
proof -
  have a: "fst (SubmitToolOutputsStream env c threadID runID sreq) = sreq\<lparr>Stream := True\<rparr>"
    by (simp add: SubmitToolOutputsStream_def Let_def split: sum.splits)
  have b: "map Body (fst (snd (SubmitToolOutputsStream env c threadID runID sreq))) =
       (case MarshalSubmit env (sreq\<lparr>Stream := True\<rparr>) of
          Inl err \<Rightarrow> []
        | Inr body \<Rightarrow>
            (case ParseURL env (submitURL c threadID runID) of
               Some err \<Rightarrow> [] | None \<Rightarrow> [body]))"
    by (simp add: SubmitToolOutputsStream_sent post_def split: sum.splits option.splits)
  have d: "map Body (fst (SubmitToolOutputs env c threadID runID sreq)) =
       (case MarshalSubmit env sreq of
          Inl err \<Rightarrow> []
        | Inr body \<Rightarrow>
            (case ParseURL env (submitURL c threadID runID) of
               Some err \<Rightarrow> [] | None \<Rightarrow> [body]))"
    by (simp add: SubmitToolOutputs_sent post_def split: sum.splits option.splits)
  show ?thesis
    by (simp add: CreateAndStream_def CreateThreadAndRunStream_def Let_def
          createRunStream_bodies a b d)
qed

text \<open>
  The theorem at a request whose \<^verbatim>\<open>Stream\<close> field is false.
\<close>

theorem streaming_calls_set_Stream_witness:
  "fst (SubmitToolOutputsStream
          (testServer (\<lparr>StatusCode = 200, RespBody = ''data: [DONE]\<newline>'', BodyEnd = EOF\<rparr>))
          (NewClient ''test-key'') ''thread_123'' ''run_123''
          \<lparr>ToolOutputs = [\<lparr>ToolCallID = ''call_123'', Output = ''sunny''\<rparr>], Stream = False\<rparr>)
     = \<lparr>ToolOutputs = [\<lparr>ToolCallID = ''call_123'', Output = ''sunny''\<rparr>], Stream = True\<rparr>
   \<and> map Body (fst (snd (SubmitToolOutputsStream
          (testServer (\<lparr>StatusCode = 200, RespBody = ''data: [DONE]\<newline>'', BodyEnd = EOF\<rparr>))
          (NewClient ''test-key'') ''thread_123'' ''run_123''
          \<lparr>ToolOutputs = [\<lparr>ToolCallID = ''call_123'', Output = ''sunny''\<rparr>], Stream = False\<rparr>)))
     = [''{\"tool_outputs\":[{\"tool_call_id\":\"call_123\",\"output\":\"sunny\"}],\"stream\":true}'']
   \<and> map Body (fst (SubmitToolOutputs
          (testServer (\<lparr>StatusCode = 200, RespBody = ''data: [DONE]\<newline>'', BodyEnd = EOF\<rparr>))
          (NewClient ''test-key'') ''thread_123'' ''run_123''
          \<lparr>ToolOutputs = [\<lparr>ToolCallID = ''call_123'', Output = ''sunny''\<rparr>], Stream = False\<rparr>))
     = [''{\"tool_outputs\":[{\"tool_call_id\":\"call_123\",\"output\":\"sunny\"}]}'']"
  using streaming_calls_set_Stream
    [of "testServer (\<lparr>StatusCode = 200, RespBody = ''data: [DONE]\<newline>'', BodyEnd = EOF\<rparr>)"
        "NewClient ''test-key''" "''thread_123''" _ _ "''run_123''"
        "\<lparr>ToolOutputs = [\<lparr>ToolCallID = ''call_123'', Output = ''sunny''\<rparr>], Stream = False\<rparr>"]
  by (simp add: testServer_simps encodeSubmit_def encodeToolOutput_def)

lemma pending_not_stop: "pendingStatus s \<Longrightarrow> \<not> stopStatus s"
  by (auto simp: pendingStatus_def stopStatus_def)

lemma waitForRunFrom_step:
  "waitForRunFrom get i =
     (if i < maxAttempts then
        (case get i of
           Inl err \<Rightarrow> Inl (GetFailed err)
         | Inr run \<Rightarrow>
             if stopStatus (Status run) then Inr run
             else if pendingStatus (Status run) then waitForRunFrom get (Suc i)
             else Inl (UnexpectedRunStatus (Status run)))
      else Inl WaitTimeout)"
  by (subst waitForRunFrom.simps) (auto simp: stopStatus_def pendingStatus_def split: sum.splits)

lemma waitForRunCompletionFrom_step:
  "waitForRunCompletionFrom get ticks i =
     (if i < ticks then
        (case get i of
           Inl err \<Rightarrow> Inl (GetFailed err)
         | Inr run \<Rightarrow>
             if stopStatus (Status run) then Inr run
             else waitForRunCompletionFrom get ticks (Suc i))
      else Inl WaitTimeout)"
  by (subst waitForRunCompletionFrom.simps) (auto simp: stopStatus_def split: sum.splits)

lemma goesOn_refl [simp]: "goesOn continue get i i"
  by (auto simp: goesOn_def)

lemma goesOn_firstI:
  assumes "\<exists>r. get i = Inr r \<and> continue (Status r)" and "goesOn continue get (Suc i) k"
  shows "goesOn continue get i k"
  unfolding goesOn_def
proof (intro allI impI)
  fix j assume j: "i \<le> j \<and> j < k"
  show "\<exists>r. get j = Inr r \<and> continue (Status r)"
  proof (cases "j = i")
    case True with assms(1) show ?thesis by simp
  next
    case False
    with j have "Suc i \<le> j \<and> j < k" by simp
    with assms(2) show ?thesis unfolding goesOn_def by blast
  qed
qed

lemma goesOn_shrink: "goesOn continue get i (Suc n) \<Longrightarrow> goesOn continue get i n"
  unfolding goesOn_def by (meson less_Suc_eq)

lemma goesOn_last: "i \<le> n \<Longrightarrow> goesOn continue get i (Suc n) \<Longrightarrow>
   \<exists>r. get n = Inr r \<and> continue (Status r)"
  unfolding goesOn_def by (meson lessI)

lemma waitForRunFrom_skip:
  "i \<le> k \<Longrightarrow> k \<le> maxAttempts \<Longrightarrow> goesOn pendingStatus get i k \<Longrightarrow>
   waitForRunFrom get i = waitForRunFrom get k"
proof (induction k rule: dec_induct)
  case base
  show ?case by simp
next
  case (step n)
  from step.prems have n: "n < maxAttempts" by simp
  from goesOn_last [OF step.hyps(1) step.prems(2)]
  obtain r where r: "get n = Inr r" "pendingStatus (Status r)" by blast
  have "waitForRunFrom get n = waitForRunFrom get (Suc n)"
    by (subst waitForRunFrom_step) (simp add: n r pending_not_stop)
  with step.IH goesOn_shrink [OF step.prems(2)] n show ?case by simp
qed

lemma waitForRunFrom_ok_only_if:
  "waitForRunFrom get i = Inr run \<Longrightarrow>
   \<exists>k. i \<le> k \<and> k < maxAttempts \<and> get k = Inr run \<and> stopStatus (Status run)
       \<and> goesOn pendingStatus get i k"
proof (induction get i rule: waitForRunFrom.induct)
  case (1 get i)
  from "1.prems" have lt: "i < maxAttempts"
    by (subst (asm) waitForRunFrom_step) (simp split: if_splits)
  from "1.prems" lt obtain r0 where r0: "get i = Inr r0"
    by (subst (asm) waitForRunFrom_step) (auto split: sum.splits)
  show ?case
  proof (cases "stopStatus (Status r0)")
    case True
    with "1.prems" lt r0 have "r0 = run"
      by (subst (asm) waitForRunFrom_step) simp
    with True lt r0 show ?thesis by (intro exI [of _ i]) simp
  next
    case False
    with "1.prems" lt r0 have p: "pendingStatus (Status r0)"
      and nxt: "waitForRunFrom get (Suc i) = Inr run"
      by (subst (asm) waitForRunFrom_step, simp split: if_splits)+
    have st: "\<not> (Status r0 = ''completed'' \<or> Status r0 = ''failed'' \<or> Status r0 = ''cancelled'')"
             "Status r0 \<noteq> ''requires_action''"
             "Status r0 = ''queued'' \<or> Status r0 = ''in_progress''"
      using False p by (auto simp: stopStatus_def pendingStatus_def)
    from "1.IH" [OF lt r0 st nxt]
    obtain k where k: "Suc i \<le> k" "k < maxAttempts" "get k = Inr run"
      "stopStatus (Status run)" "goesOn pendingStatus get (Suc i) k" by blast
    have "goesOn pendingStatus get i k"
      by (rule goesOn_firstI) (use r0 p k(5) in auto)
    with k show ?thesis by (intro exI [of _ k]) simp
  qed
qed

lemma waitForRunFrom_unexpected_only_if:
  "waitForRunFrom get i = Inl (UnexpectedRunStatus s) \<Longrightarrow>
   \<exists>k r. i \<le> k \<and> k < maxAttempts \<and> get k = Inr r \<and> Status r = s
       \<and> \<not> stopStatus s \<and> \<not> pendingStatus s \<and> goesOn pendingStatus get i k"
proof (induction get i rule: waitForRunFrom.induct)
  case (1 get i)
  from "1.prems" have lt: "i < maxAttempts"
    by (subst (asm) waitForRunFrom_step) (simp split: if_splits)
  from "1.prems" lt obtain r0 where r0: "get i = Inr r0"
    by (subst (asm) waitForRunFrom_step) (auto split: sum.splits)
  from "1.prems" lt r0 have ns: "\<not> stopStatus (Status r0)"
    by (subst (asm) waitForRunFrom_step) (auto split: if_splits)
  show ?case
  proof (cases "pendingStatus (Status r0)")
    case False
    with "1.prems" lt r0 ns have "Status r0 = s"
      by (subst (asm) waitForRunFrom_step) simp
    with False ns lt r0 show ?thesis by (intro exI [of _ i] exI [of _ r0]) simp
  next
    case True
    with "1.prems" lt r0 ns have nxt: "waitForRunFrom get (Suc i) = Inl (UnexpectedRunStatus s)"
      by (subst (asm) waitForRunFrom_step) simp
    have st: "\<not> (Status r0 = ''completed'' \<or> Status r0 = ''failed'' \<or> Status r0 = ''cancelled'')"
             "Status r0 \<noteq> ''requires_action''"
             "Status r0 = ''queued'' \<or> Status r0 = ''in_progress''"
      using ns True by (auto simp: stopStatus_def pendingStatus_def)
    from "1.IH" [OF lt r0 st nxt]
    obtain k r where k: "Suc i \<le> k" "k < maxAttempts" "get k = Inr r" "Status r = s"
      "\<not> stopStatus s" "\<not> pendingStatus s" "goesOn pendingStatus get (Suc i) k" by blast
    have "goesOn pendingStatus get i k"
      by (rule goesOn_firstI) (use r0 True k(7) in auto)
    with k show ?thesis by (intro exI [of _ k] exI [of _ r]) simp
  qed
qed

lemma waitForRunCompletionFrom_skip:
  "i \<le> k \<Longrightarrow> k \<le> ticks \<Longrightarrow> goesOn (\<lambda>s. \<not> stopStatus s) get i k \<Longrightarrow>
   waitForRunCompletionFrom get ticks i = waitForRunCompletionFrom get ticks k"
proof (induction k rule: dec_induct)
  case base
  show ?case by simp
next
  case (step n)
  from step.prems have n: "n < ticks" by simp
  from goesOn_last [OF step.hyps(1) step.prems(2)]
  obtain r where r: "get n = Inr r" "\<not> stopStatus (Status r)" by blast
  have "waitForRunCompletionFrom get ticks n = waitForRunCompletionFrom get ticks (Suc n)"
    by (subst waitForRunCompletionFrom_step) (simp add: n r)
  with step.IH goesOn_shrink [OF step.prems(2)] n show ?case by simp
qed

lemma waitForRunCompletionFrom_ok_only_if:
  "waitForRunCompletionFrom get ticks i = Inr run \<Longrightarrow>
   \<exists>k. i \<le> k \<and> k < ticks \<and> get k = Inr run \<and> stopStatus (Status run)
       \<and> goesOn (\<lambda>s. \<not> stopStatus s) get i k"
proof (induction get ticks i rule: waitForRunCompletionFrom.induct)
  case (1 get ticks i)
  from "1.prems" have lt: "i < ticks"
    by (subst (asm) waitForRunCompletionFrom_step) (simp split: if_splits)
  from "1.prems" lt obtain r0 where r0: "get i = Inr r0"
    by (subst (asm) waitForRunCompletionFrom_step) (auto split: sum.splits)
  show ?case
  proof (cases "stopStatus (Status r0)")
    case True
    with "1.prems" lt r0 have "r0 = run"
      by (subst (asm) waitForRunCompletionFrom_step) simp
    with True lt r0 show ?thesis by (intro exI [of _ i]) simp
  next
    case False
    with "1.prems" lt r0 have nxt: "waitForRunCompletionFrom get ticks (Suc i) = Inr run"
      by (subst (asm) waitForRunCompletionFrom_step) simp
    have st: "\<not> (Status r0 = ''completed'' \<or> Status r0 = ''failed''
                \<or> Status r0 = ''cancelled'' \<or> Status r0 = ''requires_action'')"
      using False by (simp add: stopStatus_def)
    from "1.IH" [OF lt r0 st nxt]
    obtain k where k: "Suc i \<le> k" "k < ticks" "get k = Inr run"
      "stopStatus (Status run)" "goesOn (\<lambda>s. \<not> stopStatus s) get (Suc i) k" by blast
    have "goesOn (\<lambda>s. \<not> stopStatus s) get i k"
      by (rule goesOn_firstI) (use r0 False k(5) in auto)
    with k show ?thesis by (intro exI [of _ k]) simp
  qed
qed

lemma waitForRunCompletionFrom_never_unexpected:
  "waitForRunCompletionFrom get ticks i \<noteq> Inl (UnexpectedRunStatus s)"
proof (induction get ticks i rule: waitForRunCompletionFrom.induct)
  case (1 get ticks i)
  show ?case
    by (subst waitForRunCompletionFrom.simps) (use "1.IH" in \<open>auto split: sum.splits\<close>)
qed

lemma goesOn_from_0: "goesOn continue get 0 k \<longleftrightarrow> (\<forall>j<k. \<exists>r. get j = Inr r \<and> continue (Status r))"
  by (simp add: goesOn_def)

text \<open>
  Claim C2, as amended. \<^verbatim>\<open>waitForRun\<close> returns a run and no error exactly when, within
  its 60 attempts, a poll gives a run whose status is \<open>completed\<close>, \<open>failed\<close>,
  \<open>cancelled\<close> or \<open>requires_action\<close> and every poll before gave a run that was
  \<open>queued\<close> or \<open>in_progress\<close>; the run returned is that of this poll.
  \<^verbatim>\<open>waitForRunCompletion\<close> does so within the ticks before the timeout, every poll
  before having given a run of any other status. The status \<open>expired\<close> is not among
  the four.
\<close>

theorem settle_wait_returns_at_first_stop_status:
  "(waitForRun get = Inr run \<longleftrightarrow>
      (\<exists>k<maxAttempts. get k = Inr run \<and> stopStatus (Status run)
          \<and> (\<forall>j<k. \<exists>r. get j = Inr r \<and> pendingStatus (Status r))))
   \<and> (waitForRunCompletion get ticks = Inr run \<longleftrightarrow>
      (\<exists>k<ticks. get k = Inr run \<and> stopStatus (Status run)
          \<and> (\<forall>j<k. \<exists>r. get j = Inr r \<and> \<not> stopStatus (Status r))))"
proof
  show "waitForRun get = Inr run \<longleftrightarrow>
      (\<exists>k<maxAttempts. get k = Inr run \<and> stopStatus (Status run)
          \<and> (\<forall>j<k. \<exists>r. get j = Inr r \<and> pendingStatus (Status r)))" (is "?L \<longleftrightarrow> ?R")
  proof
    assume ?L
    from waitForRunFrom_ok_only_if [OF this [unfolded waitForRun_def]]
    show ?R by (auto simp: goesOn_from_0)
  next
    assume ?R
    then obtain k where k: "k < maxAttempts" "get k = Inr run" "stopStatus (Status run)"
      "goesOn pendingStatus get 0 k" by (auto simp: goesOn_from_0)
    have "waitForRunFrom get 0 = waitForRunFrom get k"
      by (rule waitForRunFrom_skip) (use k in auto)
    also have "\<dots> = Inr run"
      by (subst waitForRunFrom_step) (simp add: k)
    finally show ?L by (simp add: waitForRun_def)
  qed
  show "waitForRunCompletion get ticks = Inr run \<longleftrightarrow>
      (\<exists>k<ticks. get k = Inr run \<and> stopStatus (Status run)
          \<and> (\<forall>j<k. \<exists>r. get j = Inr r \<and> \<not> stopStatus (Status r)))" (is "?L \<longleftrightarrow> ?R")
  proof
    assume ?L
    from waitForRunCompletionFrom_ok_only_if [OF this [unfolded waitForRunCompletion_def]]
    show ?R by (auto simp: goesOn_from_0)
  next
    assume ?R
    then obtain k where k: "k < ticks" "get k = Inr run" "stopStatus (Status run)"
      "goesOn (\<lambda>s. \<not> stopStatus s) get 0 k" by (auto simp: goesOn_from_0)
    have "waitForRunCompletionFrom get ticks 0 = waitForRunCompletionFrom get ticks k"
      by (rule waitForRunCompletionFrom_skip) (use k in auto)
    also have "\<dots> = Inr run"
      by (subst waitForRunCompletionFrom_step) (simp add: k)
    finally show ?L by (simp add: waitForRunCompletion_def)
  qed
qed

text \<open>
  The theorem at the polls \<open>queued\<close>, \<open>in_progress\<close>, \<open>completed\<close>.
\<close>

theorem settle_wait_returns_at_first_stop_status_witness:
  "waitForRun (\<lambda>i. Inr (zeroRun\<lparr>Status :=
       if i = 0 then ''queued'' else if i = 1 then ''in_progress'' else ''completed''\<rparr>))
     = Inr (zeroRun\<lparr>Status := ''completed''\<rparr>)"
proof -
  let ?get = "\<lambda>i::nat. Inr (zeroRun\<lparr>Status :=
       if i = 0 then ''queued'' else if i = 1 then ''in_progress'' else ''completed''\<rparr>) :: error + Run"
  have "\<exists>k<maxAttempts. ?get k = Inr (zeroRun\<lparr>Status := ''completed''\<rparr>)
          \<and> stopStatus (Status (zeroRun\<lparr>Status := ''completed''\<rparr>))
          \<and> (\<forall>j<k. \<exists>r. ?get j = Inr r \<and> pendingStatus (Status r))"
    by (intro exI [of _ 2]) (auto simp: maxAttempts_def stopStatus_def pendingStatus_def)
  with settle_wait_returns_at_first_stop_status [of ?get "zeroRun\<lparr>Status := ''completed''\<rparr>"]
  show ?thesis by blast
qed

text \<open>
  Claim C2 as stated makes \<open>expired\<close> a stopping point that returns the run. On a run
  that is expired \<^verbatim>\<open>waitForRun\<close> fails with the unexpected-status error, and
  \<^verbatim>\<open>waitForRunCompletion\<close> polls on until the timeout (here after 30 ticks).
\<close>

theorem expired_is_not_a_stopping_point_counterexample:
  "waitForRun (\<lambda>i. Inr (zeroRun\<lparr>Status := ''expired''\<rparr>)) = Inl (UnexpectedRunStatus ''expired'')
   \<and> waitForRunCompletion (\<lambda>i. Inr (zeroRun\<lparr>Status := ''expired''\<rparr>)) 30 = Inl WaitTimeout"
proof
  show "waitForRun (\<lambda>i. Inr (zeroRun\<lparr>Status := ''expired''\<rparr>)) = Inl (UnexpectedRunStatus ''expired'')"
    unfolding waitForRun_def
    by (subst waitForRunFrom_step) (simp add: maxAttempts_def stopStatus_def pendingStatus_def)
  have "waitForRunCompletionFrom (\<lambda>i. Inr (zeroRun\<lparr>Status := ''expired''\<rparr>)) 30 0
        = waitForRunCompletionFrom (\<lambda>i. Inr (zeroRun\<lparr>Status := ''expired''\<rparr>)) 30 30"
    by (rule waitForRunCompletionFrom_skip) (auto simp: goesOn_def stopStatus_def)
  also have "\<dots> = Inl WaitTimeout"
    by (subst waitForRunCompletionFrom_step) simp
  finally show "waitForRunCompletion (\<lambda>i. Inr (zeroRun\<lparr>Status := ''expired''\<rparr>)) 30 = Inl WaitTimeout"
    by (simp add: waitForRunCompletion_def)
qed

text \<open>
  Claim C4, as amended. \<^verbatim>\<open>waitForRun\<close> fails with the unexpected-status error exactly
  when, within its 60 attempts and after polls that gave \<open>queued\<close> or \<open>in_progress\<close>
  only, a poll gives a status outside \<open>queued\<close>, \<open>in_progress\<close>, \<open>requires_action\<close>,
  \<open>cancelled\<close>, \<open>failed\<close>, \<open>completed\<close>. \<^verbatim>\<open>waitForRunCompletion\<close> never gives this
  error.
\<close>

theorem unexpected_status_only_from_waitForRun:
  "(waitForRun get = Inl (UnexpectedRunStatus s) \<longleftrightarrow>
      (\<exists>k<maxAttempts. \<exists>r. get k = Inr r \<and> Status r = s
          \<and> \<not> stopStatus s \<and> \<not> pendingStatus s
          \<and> (\<forall>j<k. \<exists>r'. get j = Inr r' \<and> pendingStatus (Status r'))))
   \<and> waitForRunCompletion get ticks \<noteq> Inl (UnexpectedRunStatus s)"
proof
  show "waitForRun get = Inl (UnexpectedRunStatus s) \<longleftrightarrow>
      (\<exists>k<maxAttempts. \<exists>r. get k = Inr r \<and> Status r = s
          \<and> \<not> stopStatus s \<and> \<not> pendingStatus s
          \<and> (\<forall>j<k. \<exists>r'. get j = Inr r' \<and> pendingStatus (Status r')))" (is "?L \<longleftrightarrow> ?R")
  proof
    assume ?L
    from waitForRunFrom_unexpected_only_if [OF this [unfolded waitForRun_def]]
    show ?R by (auto simp: goesOn_from_0)
  next
    assume ?R
    then obtain k r where k: "k < maxAttempts" "get k = Inr r" "Status r = s"
      "\<not> stopStatus s" "\<not> pendingStatus s" "goesOn pendingStatus get 0 k"
      by (auto simp: goesOn_from_0)
    have "waitForRunFrom get 0 = waitForRunFrom get k"
      by (rule waitForRunFrom_skip) (use k in auto)
    also have "\<dots> = Inl (UnexpectedRunStatus s)"
      by (subst waitForRunFrom_step) (simp add: k)
    finally show ?L by (simp add: waitForRun_def)
  qed
  show "waitForRunCompletion get ticks \<noteq> Inl (UnexpectedRunStatus s)"
    unfolding waitForRunCompletion_def by (rule waitForRunCompletionFrom_never_unexpected)
qed

text \<open>
  The theorem at the polls \<open>queued\<close>, \<open>paused\<close>.
\<close>

theorem unexpected_status_only_from_waitForRun_witness:
  "waitForRun (\<lambda>i. Inr (zeroRun\<lparr>Status := if i = 0 then ''queued'' else ''paused''\<rparr>))
     = Inl (UnexpectedRunStatus ''paused'')"
proof -
  let ?get = "\<lambda>i::nat. Inr (zeroRun\<lparr>Status := if i = 0 then ''queued'' else ''paused''\<rparr>)
                :: error + Run"
  have "\<exists>k<maxAttempts. \<exists>r. ?get k = Inr r \<and> Status r = ''paused''
          \<and> \<not> stopStatus ''paused'' \<and> \<not> pendingStatus ''paused''
          \<and> (\<forall>j<k. \<exists>r'. ?get j = Inr r' \<and> pendingStatus (Status r'))"
    by (intro exI [of _ 1]) (auto simp: maxAttempts_def stopStatus_def pendingStatus_def)
  with unexpected_status_only_from_waitForRun [of ?get "''paused''"]
  show ?thesis by blast
qed

text \<open>
  Claim C4 as stated fails in both directions: \<open>cancelling\<close>, a status of the
  enumeration, makes \<^verbatim>\<open>waitForRun\<close> fail with the unexpected-status error, and on a
  status outside the enumeration \<^verbatim>\<open>waitForRunCompletion\<close> polls on until the timeout.
\<close>

theorem cancelling_is_unexpected_counterexample:
  "waitForRun (\<lambda>i. Inr (zeroRun\<lparr>Status := ''cancelling''\<rparr>))
     = Inl (UnexpectedRunStatus ''cancelling'')
   \<and> waitForRunCompletion (\<lambda>i. Inr (zeroRun\<lparr>Status := ''paused''\<rparr>)) 30 = Inl WaitTimeout"
proof
  show "waitForRun (\<lambda>i. Inr (zeroRun\<lparr>Status := ''cancelling''\<rparr>))
          = Inl (UnexpectedRunStatus ''cancelling'')"
    unfolding waitForRun_def
    by (subst waitForRunFrom_step) (simp add: maxAttempts_def stopStatus_def pendingStatus_def)
  have "waitForRunCompletionFrom (\<lambda>i. Inr (zeroRun\<lparr>Status := ''paused''\<rparr>)) 30 0
        = waitForRunCompletionFrom (\<lambda>i. Inr (zeroRun\<lparr>Status := ''paused''\<rparr>)) 30 30"
    by (rule waitForRunCompletionFrom_skip) (auto simp: goesOn_def stopStatus_def)
  also have "\<dots> = Inl WaitTimeout"
    by (subst waitForRunCompletionFrom_step) simp
  finally show "waitForRunCompletion (\<lambda>i. Inr (zeroRun\<lparr>Status := ''paused''\<rparr>)) 30 = Inl WaitTimeout"
    by (simp add: waitForRunCompletion_def)
qed

end
